theory Spec2Isabelle
  imports Main "HOL-Library.Word"
begin

unbundle bit_operations_syntax

section \<open>Machine integers, arrays and pointers\<close>

text \<open>
  The wrapper class \<open>MPR121_Helper\<close> (file \<open>MPR121_Helper.h\<close>) works on \<open>uint8_t\<close> and
  \<open>uint16_t\<close> values. They are words of that width: arithmetic wraps around, \<open>unat\<close>
  reads the value. In an expression C++ promotes both to \<open>int\<close>, which is taken to be
  32 bits wide; the promotion of an unsigned narrower value is \<open>ucast\<close>. The promotion
  keeps the value, so a comparison such as \<open>electrode > 11\<close> or \<open>i < 12\<close> is the
  comparison of the 8-bit words, and \<open>i++\<close> on a \<open>uint8_t\<close> is \<open>i + 1\<close> on the word.

  Every operation whose behaviour C++ leaves undefined (a shift that does not fit the
  promoted type, an array access outside the array, a call through a pointer that points
  to no object) yields \<open>None\<close> in the model. A result \<open>Some x\<close> therefore says, besides
  the value, that the run stayed within defined behaviour.
\<close>

type_synonym u8 = "8 word"
type_synonym u16 = "16 word"
type_synonym c_int = "32 word"

text \<open>
  \<open>a << n\<close> on \<open>int\<close>: defined when the shift count is in \<open>0..31\<close>, the left operand is
  not negative and the shifted value is representable in \<open>int\<close>.
\<close>

definition shl_int :: "c_int \<Rightarrow> c_int \<Rightarrow> c_int option" where
  "shl_int a n =
     (if 0 \<le> sint n \<and> sint n < 32 \<and> 0 \<le> sint a \<and> sint a * 2 ^ nat (sint n) < 2 ^ 31
      then Some (push_bit (nat (sint n)) a)
      else None)"

text \<open>A C array is a list of its cells; reading or writing outside it is undefined.\<close>

definition arr_read :: "'a list \<Rightarrow> nat \<Rightarrow> 'a option" where
  "arr_read a i = (if i < length a then Some (a ! i) else None)"

definition arr_write :: "'a list \<Rightarrow> nat \<Rightarrow> 'a \<Rightarrow> 'a list option" where
  "arr_write a i v = (if i < length a then Some (a[i := v]) else None)"

text \<open>
  A pointer is an address; the store maps the address of every live driver object to the
  state of that object. The null pointer and dangling pointers are addresses outside the
  store's domain.
\<close>

type_synonym addr = nat
type_synonym 'd store = "addr \<Rightarrow> 'd option"

section \<open>The sensor driver\<close>

text \<open>
  Modelled from the spec: the driver class \<open>Adafruit_MPR121\<close> comes from the header
  \<open>Adafruit_MPR121.h\<close>, which is not part of the sources. The wrapper uses three of its
  member functions, \<open>uint16_t touched()\<close>, \<open>uint16_t filteredData(uint8_t)\<close> and
  \<open>void setThresholds(uint8_t, uint8_t)\<close>. A driver is any implementation of the three
  over some type \<open>'d\<close> of driver states: each call may change the state of the driver
  object, and the two reads return a value. The driver is a parameter of every
  operation that calls it.
\<close>

record 'd Adafruit_MPR121 =
  drv_touched :: "'d \<Rightarrow> u16 \<times> 'd"
  drv_filteredData :: "u8 \<Rightarrow> 'd \<Rightarrow> u16 \<times> 'd"
  drv_setThresholds :: "u8 \<Rightarrow> u8 \<Rightarrow> 'd \<Rightarrow> 'd"

text \<open>The three calls \<open>p->touched()\<close>, \<open>p->filteredData(t)\<close> and \<open>p->setThresholds(a, b)\<close>.\<close>

definition call_touched ::
  "'d Adafruit_MPR121 \<Rightarrow> addr \<Rightarrow> 'd store \<Rightarrow> (u16 \<times> 'd store) option" where
  "call_touched drv p st =
     (case st p of
        None \<Rightarrow> None
      | Some d \<Rightarrow> (case drv_touched drv d of (v, d') \<Rightarrow> Some (v, st(p \<mapsto> d'))))"

definition call_filteredData ::
  "'d Adafruit_MPR121 \<Rightarrow> addr \<Rightarrow> u8 \<Rightarrow> 'd store \<Rightarrow> (u16 \<times> 'd store) option" where
  "call_filteredData drv p t st =
     (case st p of
        None \<Rightarrow> None
      | Some d \<Rightarrow> (case drv_filteredData drv t d of (v, d') \<Rightarrow> Some (v, st(p \<mapsto> d'))))"

definition call_setThresholds ::
  "'d Adafruit_MPR121 \<Rightarrow> addr \<Rightarrow> u8 \<Rightarrow> u8 \<Rightarrow> 'd store \<Rightarrow> 'd store option" where
  "call_setThresholds drv p touch release st =
     (case st p of
        None \<Rightarrow> None
      | Some d \<Rightarrow> Some (st(p \<mapsto> drv_setThresholds drv touch release d)))"

section \<open>The wrapper class\<close>

text \<open>
  The private members of \<open>MPR121_Helper\<close>. \<open>filteredDataCache\<close> is declared
  \<open>uint16_t[12]\<close>: in every object it is a list of 12 cells.
\<close>

record MPR121_Helper =
  sensor :: addr
  currentTouchData :: u16
  lastTouchData :: u16
  filteredDataCache :: "u16 list"

text \<open>A member function runs on the object and on the store that holds the drivers.\<close>

type_synonym 'd world = "MPR121_Helper \<times> 'd store"

subsection \<open>Constructor\<close>

text \<open>
  The constructor runs on the storage \<open>raw\<close> of the new object, whose members hold
  indeterminate values, and assigns every member. The loop counter is a \<open>uint8_t\<close>.
\<close>

function ctor_loop :: "u8 \<Rightarrow> MPR121_Helper \<Rightarrow> MPR121_Helper option" where
  "ctor_loop i h =
     (if i < 12 then
        (case arr_write (filteredDataCache h) (unat i) 0 of
           None \<Rightarrow> None
         | Some a \<Rightarrow> ctor_loop (i + 1) (h\<lparr>filteredDataCache := a\<rparr>))
      else Some h)"
  by pat_completeness auto
termination
  by (relation "measure (\<lambda>(i, h). 12 - unat i)") (auto simp: unat_arith_simps)

declare ctor_loop.simps [simp del]

definition MPR121_Helper_ctor :: "addr \<Rightarrow> 'd world \<Rightarrow> 'd world option" where
  "MPR121_Helper_ctor cap w =
     (case w of (raw, st) \<Rightarrow>
        (case ctor_loop 0 (raw\<lparr>sensor := cap, currentTouchData := 0, lastTouchData := 0\<rparr>) of
           None \<Rightarrow> None
         | Some h \<Rightarrow> Some (h, st)))"

subsection \<open>Refreshing the snapshots\<close>

definition updateTouchData :: "'d Adafruit_MPR121 \<Rightarrow> 'd world \<Rightarrow> 'd world option" where
  "updateTouchData drv w =
     (case w of (h, st) \<Rightarrow>
        (let h1 = h\<lparr>lastTouchData := currentTouchData h\<rparr> in
         case call_touched drv (sensor h1) st of
           None \<Rightarrow> None
         | Some (m, st') \<Rightarrow> Some (h1\<lparr>currentTouchData := m\<rparr>, st')))"

function updateFilteredData_loop ::
  "'d Adafruit_MPR121 \<Rightarrow> u8 \<Rightarrow> 'd world \<Rightarrow> 'd world option" where
  "updateFilteredData_loop drv i (h, st) =
     (if i < 12 then
        (case call_filteredData drv (sensor h) i st of
           None \<Rightarrow> None
         | Some (v, st') \<Rightarrow>
             (case arr_write (filteredDataCache h) (unat i) v of
                None \<Rightarrow> None
              | Some a \<Rightarrow> updateFilteredData_loop drv (i + 1) (h\<lparr>filteredDataCache := a\<rparr>, st')))
      else Some (h, st))"
  by pat_completeness auto
termination
  by (relation "measure (\<lambda>(drv, i, w). 12 - unat i)") (auto simp: unat_arith_simps)

declare updateFilteredData_loop.simps [simp del]

definition updateFilteredData :: "'d Adafruit_MPR121 \<Rightarrow> 'd world \<Rightarrow> 'd world option" where
  "updateFilteredData drv w = updateFilteredData_loop drv 0 w"

subsection \<open>Queries\<close>

definition getTouchData :: "MPR121_Helper \<Rightarrow> u8 \<Rightarrow> bool option" where
  "getTouchData h electrode =
     (if electrode > 11 then Some False
      else case shl_int 1 (ucast electrode) of
             None \<Rightarrow> None
           | Some m \<Rightarrow> Some (ucast (currentTouchData h) AND m \<noteq> 0))"

definition isTouched :: "MPR121_Helper \<Rightarrow> u8 \<Rightarrow> bool option" where
  "isTouched h electrode =
     (if electrode > 11 then Some False
      else case shl_int 1 (ucast electrode) of
             None \<Rightarrow> None
           | Some m \<Rightarrow> Some (ucast (currentTouchData h) AND m \<noteq> 0))"

definition wasTouched :: "MPR121_Helper \<Rightarrow> u8 \<Rightarrow> bool option" where
  "wasTouched h electrode =
     (if electrode > 11 then Some False
      else case shl_int 1 (ucast electrode) of
             None \<Rightarrow> None
           | Some m \<Rightarrow> Some (ucast (lastTouchData h) AND m \<noteq> 0))"

text \<open>\<open>&&\<close> evaluates its right operand only when the left one is true.\<close>

definition isNewTouch :: "MPR121_Helper \<Rightarrow> u8 \<Rightarrow> bool option" where
  "isNewTouch h electrode =
     (case isTouched h electrode of
        None \<Rightarrow> None
      | Some t \<Rightarrow>
          if t then (case wasTouched h electrode of None \<Rightarrow> None | Some w \<Rightarrow> Some (\<not> w))
          else Some False)"

definition isNewRelease :: "MPR121_Helper \<Rightarrow> u8 \<Rightarrow> bool option" where
  "isNewRelease h electrode =
     (case isTouched h electrode of
        None \<Rightarrow> None
      | Some t \<Rightarrow> if \<not> t then wasTouched h electrode else Some False)"

function getNumTouches_loop :: "MPR121_Helper \<Rightarrow> u8 \<Rightarrow> u8 \<Rightarrow> u8 option" where
  "getNumTouches_loop h i count =
     (if i < 12 then
        (case isTouched h i of
           None \<Rightarrow> None
         | Some t \<Rightarrow> getNumTouches_loop h (i + 1) (if t then count + 1 else count))
      else Some count)"
  by pat_completeness auto
termination
  by (relation "measure (\<lambda>(h, i, count). 12 - unat i)") (auto simp: unat_arith_simps)

declare getNumTouches_loop.simps [simp del]

definition getNumTouches :: "MPR121_Helper \<Rightarrow> u8 option" where
  "getNumTouches h = getNumTouches_loop h 0 0"

definition getFilteredData :: "MPR121_Helper \<Rightarrow> u8 \<Rightarrow> u16 option" where
  "getFilteredData h electrode =
     (if electrode > 11 then Some 0
      else arr_read (filteredDataCache h) (unat electrode))"

subsection \<open>Thresholds\<close>

definition setThresholds ::
  "'d Adafruit_MPR121 \<Rightarrow> u8 \<Rightarrow> u8 \<Rightarrow> 'd world \<Rightarrow> 'd world option" where
  "setThresholds drv touchThreshold releaseThreshold w =
     (case w of (h, st) \<Rightarrow>
        (case call_setThresholds drv (sensor h) touchThreshold releaseThreshold st of
           None \<Rightarrow> None
         | Some st' \<Rightarrow> Some (h, st')))"

definition setTouchThreshold :: "'d Adafruit_MPR121 \<Rightarrow> u8 \<Rightarrow> 'd world \<Rightarrow> 'd world option" where
  "setTouchThreshold drv threshold w =
     (case w of (h, st) \<Rightarrow>
        (case call_setThresholds drv (sensor h) threshold 20 st of
           None \<Rightarrow> None
         | Some st' \<Rightarrow> Some (h, st')))"

definition setReleaseThreshold :: "'d Adafruit_MPR121 \<Rightarrow> u8 \<Rightarrow> 'd world \<Rightarrow> 'd world option" where
  "setReleaseThreshold drv threshold w =
     (case w of (h, st) \<Rightarrow>
        (case call_setThresholds drv (sensor h) 40 threshold st of
           None \<Rightarrow> None
         | Some st' \<Rightarrow> Some (h, st')))"

section \<open>Notions used to state the properties\<close>

text \<open>
  The replies of the driver to the calls \<open>filteredData(t)\<close> for the channels \<open>t\<close> of a
  list, made one after the other in the order of the list, and the state of the driver
  after the last call.
\<close>

fun filteredData_replies :: "'d Adafruit_MPR121 \<Rightarrow> u8 list \<Rightarrow> 'd \<Rightarrow> u16 list \<times> 'd" where
  "filteredData_replies drv [] d = ([], d)"
| "filteredData_replies drv (t # ts) d =
     (case drv_filteredData drv t d of (v, d1) \<Rightarrow>
        (case filteredData_replies drv ts d1 of (vs, d2) \<Rightarrow> (v # vs, d2)))"

definition channels :: "u8 list" where
  "channels = [0, 1, 2, 3, 4, 5, 6, 7, 8, 9, 10, 11]"

text \<open>
  A world is well formed when the cache of the wrapper has its 12 cells and the wrapper's
  pointer refers to a live driver object.
\<close>

definition well_formed :: "'d world \<Rightarrow> bool" where
  "well_formed w = (case w of (h, st) \<Rightarrow> length (filteredDataCache h) = 12 \<and> st (sensor h) \<noteq> None)"

section \<open>A simulated sensor\<close>

text \<open>
  A driver to run the wrapper on concrete inputs: \<open>touched()\<close> returns the next mask of
  a script (0 once the script is used up), \<open>filteredData(t)\<close> returns entry \<open>t\<close> of a
  table (0 outside the table), and every call is recorded with its arguments.
\<close>

datatype drv_call = Touched | FilteredData u8 | SetThresholds u8 u8

record sim_sensor =
  sim_masks :: "u16 list"
  sim_filtered :: "u16 list"
  sim_calls :: "drv_call list"

definition sim_touched :: "sim_sensor \<Rightarrow> u16 \<times> sim_sensor" where
  "sim_touched d =
     (case sim_masks d of
        [] \<Rightarrow> (0, d\<lparr>sim_calls := sim_calls d @ [Touched]\<rparr>)
      | m # ms \<Rightarrow> (m, d\<lparr>sim_masks := ms, sim_calls := sim_calls d @ [Touched]\<rparr>))"

definition sim_filteredData :: "u8 \<Rightarrow> sim_sensor \<Rightarrow> u16 \<times> sim_sensor" where
  "sim_filteredData t d =
     (case arr_read (sim_filtered d) (unat t) of
        None \<Rightarrow> (0, d\<lparr>sim_calls := sim_calls d @ [FilteredData t]\<rparr>)
      | Some v \<Rightarrow> (v, d\<lparr>sim_calls := sim_calls d @ [FilteredData t]\<rparr>))"

definition sim_setThresholds :: "u8 \<Rightarrow> u8 \<Rightarrow> sim_sensor \<Rightarrow> sim_sensor" where
  "sim_setThresholds touch release d =
     d\<lparr>sim_calls := sim_calls d @ [SetThresholds touch release]\<rparr>"

definition sim_driver :: "sim_sensor Adafruit_MPR121" where
  "sim_driver =
     \<lparr>drv_touched = sim_touched,
      drv_filteredData = sim_filteredData,
      drv_setThresholds = sim_setThresholds\<rparr>"

text \<open>
  A sensor that will report channel 0 touched, then channels 0 and 1, and whose filtered
  values are 10, 20, ..., 120; the storage of an object before its construction; a
  constructed wrapper bound to address 1; and a store with the sensor at address 1.
\<close>

definition sim0 :: sim_sensor where
  "sim0 = \<lparr>sim_masks = [0x001, 0x003],
           sim_filtered = [10, 20, 30, 40, 50, 60, 70, 80, 90, 100, 110, 120],
           sim_calls = []\<rparr>"

definition raw0 :: MPR121_Helper where
  "raw0 = \<lparr>sensor = 0, currentTouchData = 0xBEEF, lastTouchData = 0xDEAD,
           filteredDataCache = [1, 2, 3, 4, 5, 6, 7, 8, 9, 10, 11, 12]\<rparr>"

definition helper0 :: MPR121_Helper where
  "helper0 = \<lparr>sensor = 1, currentTouchData = 0, lastTouchData = 0,
              filteredDataCache = [0, 0, 0, 0, 0, 0, 0, 0, 0, 0, 0, 0]\<rparr>"

definition store0 :: "sim_sensor store" where
  "store0 = Map.empty(1 \<mapsto> sim0)"

section \<open>Facts about the words and the bit test\<close>

lemma sint_ucast_u8: "sint (ucast (e::u8) :: c_int) = int (unat e)"
proof -
  have "uint e < 2 ^ 8" using uint_lt2p [of e] by simp
  then have "uint e < 2 ^ 31" by simp
  moreover have "- (2 ^ 31) \<le> (0::int)" by simp
  then have "- (2 ^ 31) \<le> uint e" using uint_nonnegative [of e] by (rule order_trans)
  ultimately have "signed_take_bit 31 (uint e) = uint e"
    by (rule signed_take_bit_int_eq_self [rotated])
  then show ?thesis by (simp add: signed_ucast_eq)
qed

text \<open>For an electrode that passed the range check the shift \<open>1 << electrode\<close> is defined.\<close>

lemma shl_int_one: "e \<le> 11 \<Longrightarrow> shl_int 1 (ucast (e::u8)) = Some (2 ^ unat e)"
proof -
  assume le: "e \<le> 11"
  then have n: "unat e \<le> 11" by (simp add: word_le_nat_alt)
  then have "(2::int) ^ unat e \<le> 2 ^ 11" by (intro power_increasing) simp_all
  then have "(2::int) ^ unat e < 2 ^ 31" by simp
  with n show ?thesis
    by (simp add: shl_int_def sint_ucast_u8 del: of_nat_unat)
qed

lemma bit_test:
  "e \<le> 11 \<Longrightarrow> (ucast (w::u16) AND (2 ^ unat (e::u8) :: c_int) \<noteq> 0) = bit w (unat e)"
  by (simp add: and_exp_eq_0_iff_not_bit bit_ucast_iff word_le_nat_alt)

lemma u8_succ: "(i::u8) < 12 \<Longrightarrow> unat (i + 1) = Suc (unat i)"
  by (simp add: unat_arith_simps)

lemma u8_succ_le: "(i::u8) < 12 \<Longrightarrow> i + 1 \<le> 12"
  by (simp add: unat_arith_simps)

lemma unat_of_nat_u8: "n < 256 \<Longrightarrow> unat (of_nat n :: u8) = n"
  by (simp add: unat_of_nat)

lemma low12: "(0xFFF :: u16) = mask 12"
  by (simp add: mask_eq_exp_minus_1)

lemma set_bits_low12: "{n. bit ((w::u16) AND 0xFFF) n} = set (filter (bit w) [0..<12])"
  by (auto simp: low12 bit_and_iff bit_mask_iff)

lemma card_low12: "card {n. bit ((w::u16) AND 0xFFF) n} = length (filter (bit w) [0..<12])"
  using distinct_card [of "filter (bit w) [0..<12]"] by (simp add: set_bits_low12)

lemma length_filter_le12: "length (filter P [0..<12]) \<le> 12"
  using length_filter_le [of P "[0..<12]"] by simp

lemma take_update_snoc: "n < length xs \<Longrightarrow> take (Suc n) (xs[n := v]) = take n xs @ [v]"
  by (simp add: take_Suc_conv_app_nth)

lemma channels_upt: "map of_nat [0..<12] = channels"
  by (simp add: channels_def upt_rec)

section \<open>What the queries compute\<close>

lemma getTouchData_eq:
  "getTouchData h e = Some (e \<le> 11 \<and> bit (currentTouchData h) (unat e))"
  by (auto simp: getTouchData_def shl_int_one bit_test)

lemma isTouched_eq:
  "isTouched h e = Some (e \<le> 11 \<and> bit (currentTouchData h) (unat e))"
  by (auto simp: isTouched_def shl_int_one bit_test)

lemma wasTouched_eq:
  "wasTouched h e = Some (e \<le> 11 \<and> bit (lastTouchData h) (unat e))"
  by (auto simp: wasTouched_def shl_int_one bit_test)

lemma isNewTouch_eq:
  "isNewTouch h e =
     Some (e \<le> 11 \<and> bit (currentTouchData h) (unat e) \<and> \<not> bit (lastTouchData h) (unat e))"
  by (cases "e \<le> 11"; cases "bit (currentTouchData h) (unat e)")
    (simp_all add: isNewTouch_def isTouched_eq wasTouched_eq)

lemma isNewRelease_eq:
  "isNewRelease h e =
     Some (e \<le> 11 \<and> \<not> bit (currentTouchData h) (unat e) \<and> bit (lastTouchData h) (unat e))"
  by (cases "e \<le> 11"; cases "bit (currentTouchData h) (unat e)")
    (simp_all add: isNewRelease_def isTouched_eq wasTouched_eq)

lemma getFilteredData_eq:
  "getFilteredData h e = Some (if e \<le> 11 then filteredDataCache h ! unat e else 0)"
  if "length (filteredDataCache h) = 12"
proof (cases "11 < e")
  case True
  then have "\<not> e \<le> 11" by (simp add: not_le)
  with True show ?thesis by (simp add: getFilteredData_def)
next
  case False
  then have "e \<le> 11" by simp
  moreover from this have "unat e < 12" by (simp add: word_le_nat_alt)
  ultimately show ?thesis using False that by (simp add: getFilteredData_def arr_read_def)
qed

text \<open>The loop of \<open>getNumTouches\<close>, started at any counter value up to 12.\<close>

lemma getNumTouches_loop_eq:
  "i \<le> 12 \<Longrightarrow>
   getNumTouches_loop h i count =
     Some (count + of_nat (length (filter (bit (currentTouchData h)) [unat i..<12])))"
proof (induction h i count rule: getNumTouches_loop.induct)
  case (1 h i count)
  show ?case
  proof (cases "i < 12")
    case False
    with "1.prems" have "i = 12" by simp
    then show ?thesis by (simp add: getNumTouches_loop.simps)
  next
    case True
    then have n: "unat i < 12" by (simp add: word_less_nat_alt)
    from True have le: "i \<le> 11" by (simp add: unat_arith_simps)
    let ?t = "bit (currentTouchData h) (unat i)"
    have t: "isTouched h i = Some ?t" using le by (simp add: isTouched_eq)
    have up: "[unat i..<12] = unat i # [unat (i + 1)..<12]"
      using n by (simp add: u8_succ [OF True] upt_conv_Cons)
    have "getNumTouches_loop h (i + 1) (if ?t then count + 1 else count) =
      Some ((if ?t then count + 1 else count) +
        of_nat (length (filter (bit (currentTouchData h)) [unat (i + 1)..<12])))"
      by (rule "1.IH" [OF True t u8_succ_le [OF True]])
    then show ?thesis
      using True t by (subst getNumTouches_loop.simps) (simp add: up)
  qed
qed

lemma touched_channels:
  "{c. isTouched h c = Some True} = of_nat ` set (filter (bit (currentTouchData h)) [0..<12])"
proof (intro set_eqI iffI)
  fix c assume "c \<in> {c. isTouched h c = Some True}"
  then have c: "c \<le> 11" "bit (currentTouchData h) (unat c)" by (simp_all add: isTouched_eq)
  then have "unat c \<in> set (filter (bit (currentTouchData h)) [0..<12])"
    by (simp add: word_le_nat_alt)
  then have "of_nat (unat c) \<in> (of_nat ` set (filter (bit (currentTouchData h)) [0..<12]) :: u8 set)"
    by (rule imageI)
  then show "c \<in> of_nat ` set (filter (bit (currentTouchData h)) [0..<12])" by simp
next
  fix c :: u8 assume "c \<in> of_nat ` set (filter (bit (currentTouchData h)) [0..<12])"
  then obtain n where n: "c = of_nat n" "n < 12" "bit (currentTouchData h) n" by auto
  then have "unat c = n" by (simp add: unat_of_nat_u8)
  with n show "c \<in> {c. isTouched h c = Some True}"
    by (simp add: isTouched_eq word_le_nat_alt)
qed

lemma card_touched_channels:
  "card {c. isTouched h c = Some True} = length (filter (bit (currentTouchData h)) [0..<12])"
proof -
  have "inj_on (of_nat :: nat \<Rightarrow> u8) (set (filter (bit (currentTouchData h)) [0..<12]))"
    by (rule inj_on_inverseI [where g = unat]) (simp add: unat_of_nat_u8)
  then show ?thesis
    using distinct_card [of "filter (bit (currentTouchData h)) [0..<12]"]
    by (simp add: touched_channels card_image)
qed

section \<open>What the constructor and the refresh operations compute\<close>

text \<open>
  The loop of the constructor, started at any counter value up to 12, keeps the cells
  below the counter and clears the others.
\<close>

lemma ctor_loop_eq:
  "length (filteredDataCache h) = 12 \<Longrightarrow> i \<le> 12 \<Longrightarrow>
   ctor_loop i h =
     Some (h\<lparr>filteredDataCache := take (unat i) (filteredDataCache h) @ replicate (12 - unat i) 0\<rparr>)"
proof (induction i h rule: ctor_loop.induct)
  case (1 i h)
  show ?case
  proof (cases "i < 12")
    case False
    with "1.prems" have "i = 12" by simp
    with "1.prems" show ?thesis by (simp add: ctor_loop.simps)
  next
    case True
    then have n: "unat i < 12" by (simp add: word_less_nat_alt)
    let ?a = "(filteredDataCache h)[unat i := 0]"
    have w: "arr_write (filteredDataCache h) (unat i) 0 = Some ?a"
      using n "1.prems" by (simp add: arr_write_def)
    have "ctor_loop (i + 1) (h\<lparr>filteredDataCache := ?a\<rparr>) =
      Some (h\<lparr>filteredDataCache := take (unat (i + 1)) ?a @ replicate (12 - unat (i + 1)) 0\<rparr>)"
      using "1.IH" [OF True w] "1.prems" u8_succ_le [OF True] by simp
    moreover have "take (unat (i + 1)) ?a @ replicate (12 - unat (i + 1)) 0 =
      take (unat i) (filteredDataCache h) @ replicate (12 - unat i) 0"
    proof -
      have "12 - unat i = Suc (11 - unat i)" using n by simp
      then show ?thesis
        using n "1.prems" by (simp add: u8_succ [OF True] take_update_snoc)
    qed
    ultimately show ?thesis
      using True w by (subst ctor_loop.simps) simp
  qed
qed

lemma MPR121_Helper_ctor_eq:
  "length (filteredDataCache raw) = 12 \<Longrightarrow>
   MPR121_Helper_ctor cap (raw, st) =
     Some (\<lparr>sensor = cap, currentTouchData = 0, lastTouchData = 0,
            filteredDataCache = replicate 12 0\<rparr>, st)"
  by (simp add: MPR121_Helper_ctor_def ctor_loop_eq)

lemma updateTouchData_eq:
  "st (sensor h) = Some d \<Longrightarrow> drv_touched drv d = (m, d') \<Longrightarrow>
   updateTouchData drv (h, st) =
     Some (h\<lparr>lastTouchData := currentTouchData h, currentTouchData := m\<rparr>, st(sensor h \<mapsto> d'))"
  by (simp add: updateTouchData_def call_touched_def)

lemma length_filteredData_replies: "length (fst (filteredData_replies drv ts d)) = length ts"
proof (induction ts arbitrary: d)
  case Nil
  show ?case by simp
next
  case (Cons t ts)
  obtain v d1 where r: "drv_filteredData drv t d = (v, d1)" by (cases "drv_filteredData drv t d")
  show ?case using Cons [of d1] by (cases "filteredData_replies drv ts d1") (simp add: r)
qed

text \<open>
  The loop of \<open>updateFilteredData\<close>, started at any counter value up to 12, keeps the cells
  below the counter and stores the driver's replies in the others.
\<close>

lemma updateFilteredData_loop_eq:
  "st (sensor h) = Some d \<Longrightarrow> length (filteredDataCache h) = 12 \<Longrightarrow> i \<le> 12 \<Longrightarrow>
   updateFilteredData_loop drv i (h, st) =
     Some (h\<lparr>filteredDataCache := take (unat i) (filteredDataCache h) @
              fst (filteredData_replies drv (map of_nat [unat i..<12]) d)\<rparr>,
           st(sensor h \<mapsto> snd (filteredData_replies drv (map of_nat [unat i..<12]) d)))"
proof (induction drv i "(h, st)" arbitrary: h st d rule: updateFilteredData_loop.induct)
  case (1 drv i h st)
  show ?case
  proof (cases "i < 12")
    case False
    with "1.prems" have "i = 12" by simp
    with "1.prems" show ?thesis by (simp add: updateFilteredData_loop.simps map_upd_triv)
  next
    case True
    then have n: "unat i < 12" by (simp add: word_less_nat_alt)
    obtain v d1 where r: "drv_filteredData drv i d = (v, d1)" by (cases "drv_filteredData drv i d")
    let ?st = "st(sensor h \<mapsto> d1)"
    let ?a = "(filteredDataCache h)[unat i := v]"
    let ?h = "h\<lparr>filteredDataCache := ?a\<rparr>"
    have c: "call_filteredData drv (sensor h) i st = Some (v, ?st)"
      using "1.prems" r by (simp add: call_filteredData_def)
    have w: "arr_write (filteredDataCache h) (unat i) v = Some ?a"
      using n "1.prems" by (simp add: arr_write_def)
    have up: "[unat i..<12] = unat i # [unat (i + 1)..<12]"
      using n by (simp add: u8_succ [OF True] upt_conv_Cons)
    have "updateFilteredData_loop drv (i + 1) (?h, ?st) =
      Some (?h\<lparr>filteredDataCache := take (unat (i + 1)) (filteredDataCache ?h) @
              fst (filteredData_replies drv (map of_nat [unat (i + 1)..<12]) d1)\<rparr>,
           ?st(sensor ?h \<mapsto> snd (filteredData_replies drv (map of_nat [unat (i + 1)..<12]) d1)))"
      using "1.prems" u8_succ_le [OF True]
      by (intro "1.hyps" [OF True c refl w]) simp_all
    then have "updateFilteredData_loop drv (i + 1) (?h, ?st) =
      Some (h\<lparr>filteredDataCache := take (unat i) (filteredDataCache h) @
              fst (filteredData_replies drv (map of_nat [unat i..<12]) d)\<rparr>,
           st(sensor h \<mapsto> snd (filteredData_replies drv (map of_nat [unat i..<12]) d)))"
      using n "1.prems" r
      by (simp add: up u8_succ [OF True] take_update_snoc split: prod.splits)
    then show ?thesis
      using True c w by (subst updateFilteredData_loop.simps) simp
  qed
qed

lemma updateFilteredData_eq:
  "st (sensor h) = Some d \<Longrightarrow> length (filteredDataCache h) = 12 \<Longrightarrow>
   updateFilteredData drv (h, st) =
     Some (h\<lparr>filteredDataCache := fst (filteredData_replies drv channels d)\<rparr>,
           st(sensor h \<mapsto> snd (filteredData_replies drv channels d)))"
  using updateFilteredData_loop_eq [of st h d 0 drv]
  by (simp add: updateFilteredData_def channels_upt)

section \<open>Well-formed worlds\<close>

text \<open>
  Construction with a pointer to a live driver gives a well-formed world, and on a
  well-formed world every operation returns, within defined behaviour, a well-formed
  world. So the worlds a program can reach from a construction are well formed.
\<close>

lemma ctor_well_formed:
  "length (filteredDataCache raw) = 12 \<Longrightarrow> st cap \<noteq> None \<Longrightarrow>
   \<exists>w. MPR121_Helper_ctor cap (raw, st) = Some w \<and> well_formed w"
  by (simp add: MPR121_Helper_ctor_eq well_formed_def)

lemma updateTouchData_well_formed:
  "well_formed w \<Longrightarrow> \<exists>w'. updateTouchData drv w = Some w' \<and> well_formed w'"
proof -
  assume wf: "well_formed w"
  obtain h st where w: "w = (h, st)" by (cases w)
  from wf w obtain d where d: "st (sensor h) = Some d" by (auto simp: well_formed_def)
  obtain m d' where "drv_touched drv d = (m, d')" by (cases "drv_touched drv d")
  with d wf w show ?thesis by (simp add: updateTouchData_eq well_formed_def)
qed

lemma updateFilteredData_well_formed:
  "well_formed w \<Longrightarrow> \<exists>w'. updateFilteredData drv w = Some w' \<and> well_formed w'"
proof -
  assume wf: "well_formed w"
  obtain h st where w: "w = (h, st)" by (cases w)
  from wf w obtain d where d: "st (sensor h) = Some d" by (auto simp: well_formed_def)
  have "length (fst (filteredData_replies drv channels d)) = 12"
    using length_filteredData_replies [of drv channels d] by (simp only: channels_def) simp
  with d wf w show ?thesis by (simp add: updateFilteredData_eq well_formed_def)
qed

lemma setThresholds_well_formed:
  "well_formed w \<Longrightarrow> \<exists>w'. setThresholds drv a b w = Some w' \<and> well_formed w'"
  by (cases w) (auto simp: setThresholds_def call_setThresholds_def well_formed_def)

lemma setTouchThreshold_well_formed:
  "well_formed w \<Longrightarrow> \<exists>w'. setTouchThreshold drv a w = Some w' \<and> well_formed w'"
  by (cases w) (auto simp: setTouchThreshold_def call_setThresholds_def well_formed_def)

lemma setReleaseThreshold_well_formed:
  "well_formed w \<Longrightarrow> \<exists>w'. setReleaseThreshold drv b w = Some w' \<and> well_formed w'"
  by (cases w) (auto simp: setReleaseThreshold_def call_setThresholds_def well_formed_def)

section \<open>The wrapper on the simulated sensor\<close>

text \<open>
  The definitions run: on the simulated sensor, which reports channel 0 and then channels
  0 and 1, the first refresh shows channel 0 touched and one touch; after the second,
  channel 1 is a new touch, channel 0 is not, and channel 0 is no new release.
\<close>

lemma scenario_first_refresh:
  "updateTouchData sim_driver (helper0, store0) =
     Some (helper0\<lparr>currentTouchData := 1\<rparr>,
           store0(1 \<mapsto> sim0\<lparr>sim_masks := [3], sim_calls := [Touched]\<rparr>)) \<and>
   isTouched (helper0\<lparr>currentTouchData := 1\<rparr>) 0 = Some True \<and>
   getNumTouches (helper0\<lparr>currentTouchData := 1\<rparr>) = Some 1"
  by (simp add: updateTouchData_def call_touched_def sim_driver_def sim_touched_def
      helper0_def store0_def sim0_def isTouched_def shl_int_def
      getNumTouches_def getNumTouches_loop.simps)

lemma scenario_second_refresh:
  "updateTouchData sim_driver
     (helper0\<lparr>currentTouchData := 1\<rparr>,
      store0(1 \<mapsto> sim0\<lparr>sim_masks := [3], sim_calls := [Touched]\<rparr>)) =
     Some (helper0\<lparr>currentTouchData := 3, lastTouchData := 1\<rparr>,
           store0(1 \<mapsto> sim0\<lparr>sim_masks := [], sim_calls := [Touched, Touched]\<rparr>)) \<and>
   isNewTouch (helper0\<lparr>currentTouchData := 3, lastTouchData := 1\<rparr>) 1 = Some True \<and>
   isNewTouch (helper0\<lparr>currentTouchData := 3, lastTouchData := 1\<rparr>) 0 = Some False \<and>
   isNewRelease (helper0\<lparr>currentTouchData := 3, lastTouchData := 1\<rparr>) 0 = Some False"
  by (simp add: updateTouchData_def call_touched_def sim_driver_def sim_touched_def
      helper0_def store0_def sim0_def isNewTouch_def isNewRelease_def isTouched_def
      wasTouched_def shl_int_def)

section \<open>The properties\<close>

text \<open>
  Claim C1. Two refreshes of the touch data in a row, in which the driver's \<open>touched()\<close>
  returns the mask \<open>M1\<close> and then the mask \<open>M2\<close>, both return, and after them, for every
  channel \<open>c\<close> in 0..11, \<open>wasTouched c\<close> is bit \<open>c\<close> of \<open>M1\<close> and \<open>isTouched c\<close> is bit \<open>c\<close>
  of \<open>M2\<close>. The wrapper's pointer refers to a live driver.
\<close>

theorem two_generation:
  assumes "st (sensor h) = Some d0"
    and "drv_touched drv d0 = (M1, d1)"
    and "drv_touched drv d1 = (M2, d2)"
    and "c \<le> 11"
  shows "\<exists>h1 st1 h2 st2.
           updateTouchData drv (h, st) = Some (h1, st1) \<and>
           updateTouchData drv (h1, st1) = Some (h2, st2) \<and>
           wasTouched h2 c = Some (bit M1 (unat c)) \<and>
           isTouched h2 c = Some (bit M2 (unat c))"
proof -
  let ?h1 = "h\<lparr>lastTouchData := currentTouchData h, currentTouchData := M1\<rparr>"
  let ?st1 = "st(sensor h \<mapsto> d1)"
  let ?h2 = "?h1\<lparr>lastTouchData := currentTouchData ?h1, currentTouchData := M2\<rparr>"
  let ?st2 = "?st1(sensor ?h1 \<mapsto> d2)"
  have 1: "updateTouchData drv (h, st) = Some (?h1, ?st1)"
    using assms(1,2) by (rule updateTouchData_eq)
  have "?st1 (sensor ?h1) = Some d1" by simp
  then have 2: "updateTouchData drv (?h1, ?st1) = Some (?h2, ?st2)"
    using assms(3) by (rule updateTouchData_eq)
  have "wasTouched ?h2 c = Some (bit M1 (unat c))" "isTouched ?h2 c = Some (bit M2 (unat c))"
    using assms(4) by (simp_all add: wasTouched_eq isTouched_eq)
  with 1 2 show ?thesis by blast
qed

text \<open>
  On the simulated sensor (masks 1, then 3) and channel 1: not touched before, touched now.
\<close>

theorem two_generation_witness:
  "store0 (sensor helper0) = Some sim0 \<and>
   fst (drv_touched sim_driver sim0) = 1 \<and>
   fst (drv_touched sim_driver (snd (drv_touched sim_driver sim0))) = 3 \<and>
   (1::u8) \<le> 11 \<and>
   (\<exists>h1 st1 h2 st2.
      updateTouchData sim_driver (helper0, store0) = Some (h1, st1) \<and>
      updateTouchData sim_driver (h1, st1) = Some (h2, st2) \<and>
      wasTouched h2 1 = Some False \<and> isTouched h2 1 = Some True)"
  using two_generation [of store0 helper0 sim0 sim_driver 1 "snd (sim_touched sim0)" 3
      "snd (sim_touched (snd (sim_touched sim0)))" 1]
  by (simp add: store0_def helper0_def sim0_def sim_driver_def sim_touched_def)

text \<open>
  Claim C2. For every electrode argument greater than 11, \<open>getTouchData\<close>, \<open>isTouched\<close>,
  \<open>wasTouched\<close>, \<open>isNewTouch\<close> and \<open>isNewRelease\<close> return false and \<open>getFilteredData\<close>
  returns 0, whatever the object holds. And for every argument at all, no query shifts
  a mask by a count out of range, nor reads outside the 12 cells of the cache: each
  returns within defined behaviour. The argument is a \<open>uint8_t\<close>.
\<close>

theorem out_of_range_defaults:
  "(11 < e \<longrightarrow>
      getTouchData h e = Some False \<and> isTouched h e = Some False \<and>
      wasTouched h e = Some False \<and> isNewTouch h e = Some False \<and>
      isNewRelease h e = Some False \<and> getFilteredData h e = Some 0) \<and>
   getTouchData h e \<noteq> None \<and> isTouched h e \<noteq> None \<and> wasTouched h e \<noteq> None \<and>
   isNewTouch h e \<noteq> None \<and> isNewRelease h e \<noteq> None \<and>
   (length (filteredDataCache h) = 12 \<longrightarrow> getFilteredData h e \<noteq> None)"
proof -
  have "getFilteredData h e = Some 0" if "11 < e"
    using that by (simp add: getFilteredData_def)
  moreover have "\<not> e \<le> 11" if "11 < e"
    using that by (simp add: not_le)
  ultimately show ?thesis
    by (simp add: getTouchData_eq isTouched_eq wasTouched_eq isNewTouch_eq isNewRelease_eq
        getFilteredData_eq)
qed

text \<open>
  Electrode 12 on an object whose masks have bit 12 set and whose cache holds no zero;
  electrode 255 reads no cell either.
\<close>

theorem out_of_range_defaults_witness:
  "(11::u8) < 12 \<and> length (filteredDataCache raw0) = 12 \<and>
   bit (currentTouchData raw0) 12 \<and> bit (lastTouchData raw0) 12 \<and>
   getTouchData raw0 12 = Some False \<and> isTouched raw0 12 = Some False \<and>
   wasTouched raw0 12 = Some False \<and> isNewTouch raw0 12 = Some False \<and>
   isNewRelease raw0 12 = Some False \<and> getFilteredData raw0 12 = Some 0 \<and>
   getFilteredData raw0 255 \<noteq> None"
  using out_of_range_defaults [of 12 raw0] out_of_range_defaults [of 255 raw0]
  by (simp add: raw0_def)

text \<open>
  Claim C3. For every channel in 0..11, \<open>isTouched\<close> returns true exactly when the bit
  of that channel is set in \<open>currentTouchData\<close>; and \<open>currentTouchData\<close> is, after a
  refresh of the touch data, the mask that the driver's \<open>touched()\<close> returned in that
  refresh. The wrapper's pointer refers to a live driver.
\<close>

theorem isTouched_current_bit:
  assumes "c \<le> 11"
    and "st (sensor h) = Some d"
    and "drv_touched drv d = (M, d')"
  shows "isTouched h c = Some (bit (currentTouchData h) (unat c)) \<and>
         (\<exists>h'. updateTouchData drv (h, st) = Some (h', st(sensor h \<mapsto> d')) \<and>
               currentTouchData h' = M \<and>
               isTouched h' c = Some (bit M (unat c)))"
  using assms by (simp add: isTouched_eq updateTouchData_eq)

text \<open>On the simulated sensor (first mask 1) and channel 0: not touched, then touched.\<close>

theorem isTouched_current_bit_witness:
  "(0::u8) \<le> 11 \<and> store0 (sensor helper0) = Some sim0 \<and>
   fst (drv_touched sim_driver sim0) = 1 \<and>
   isTouched helper0 0 = Some False \<and>
   (\<exists>h'. updateTouchData sim_driver (helper0, store0) =
            Some (h', store0(1 \<mapsto> snd (sim_touched sim0))) \<and>
          currentTouchData h' = 1 \<and> isTouched h' 0 = Some True)"
  using isTouched_current_bit [of 0 store0 helper0 sim0 sim_driver 1 "snd (sim_touched sim0)"]
  by (simp add: store0_def helper0_def sim0_def sim_driver_def sim_touched_def)

text \<open>
  Claim C4. In every state of the wrapper, reachable or not, \<open>getNumTouches\<close> returns
  the number of bits set among the low 12 bits of \<open>currentTouchData\<close>, which is the number
  of channels for which \<open>isTouched\<close> is true; the count is the result of the scan of the
  channels 0..11.
\<close>

theorem getNumTouches_popcount:
  "\<exists>k. getNumTouches h = Some k \<and>
     unat k = card {n. bit (currentTouchData h AND 0xFFF) n} \<and>
     unat k = card {c. isTouched h c = Some True}"
proof -
  let ?n = "length (filter (bit (currentTouchData h)) [0..<12])"
  have "getNumTouches h = Some (of_nat ?n)"
    by (simp add: getNumTouches_def getNumTouches_loop_eq)
  moreover have "unat (of_nat ?n :: u8) = ?n"
    using length_filter_le12 [of "bit (currentTouchData h)"] by (simp add: unat_of_nat_u8)
  ultimately show ?thesis
    by (simp add: card_low12 card_touched_channels)
qed

text \<open>
  Claim C5. For every electrode argument, in range or not, and every state of the
  wrapper, \<open>isNewTouch\<close> is true exactly when \<open>isTouched\<close> is true and \<open>wasTouched\<close> is
  false, \<open>isNewRelease\<close> is true exactly when \<open>isTouched\<close> is false and \<open>wasTouched\<close> is
  true, and the two are never both true.
\<close>

theorem edges_exclusive:
  "\<exists>t w. isTouched h c = Some t \<and> wasTouched h c = Some w \<and>
     isNewTouch h c = Some (t \<and> \<not> w) \<and>
     isNewRelease h c = Some (\<not> t \<and> w) \<and>
     \<not> (isNewTouch h c = Some True \<and> isNewRelease h c = Some True)"
proof -
  let ?t = "c \<le> 11 \<and> bit (currentTouchData h) (unat c)"
  let ?w = "c \<le> 11 \<and> bit (lastTouchData h) (unat c)"
  have "isTouched h c = Some ?t" "wasTouched h c = Some ?w"
    by (simp_all add: isTouched_eq wasTouched_eq)
  moreover have "isNewTouch h c = Some (?t \<and> \<not> ?w)"
    unfolding isNewTouch_eq by (rule arg_cong [where f = Some]) blast
  moreover have "isNewRelease h c = Some (\<not> ?t \<and> ?w)"
    unfolding isNewRelease_eq by (rule arg_cong [where f = Some]) blast
  moreover have "\<not> (isNewTouch h c = Some True \<and> isNewRelease h c = Some True)"
    unfolding isNewTouch_eq isNewRelease_eq by simp
  ultimately show ?thesis by blast
qed

text \<open>
  Claim C6. \<open>setTouchThreshold level\<close> calls the driver's \<open>setThresholds\<close> with the pair
  \<open>(level, 20)\<close> and \<open>setReleaseThreshold level\<close> calls it with \<open>(40, level)\<close>: each is the
  wrapper's \<open>setThresholds\<close> with the constant for the other threshold, on every call.
  The wrapper's pointer refers to a live driver.
\<close>

theorem single_threshold_setters:
  assumes "st (sensor h) = Some d"
  shows "setTouchThreshold drv level (h, st) =
           Some (h, st(sensor h \<mapsto> drv_setThresholds drv level 20 d)) \<and>
         setReleaseThreshold drv level (h, st) =
           Some (h, st(sensor h \<mapsto> drv_setThresholds drv 40 level d)) \<and>
         setTouchThreshold drv level (h, st) = setThresholds drv level 20 (h, st) \<and>
         setReleaseThreshold drv level (h, st) = setThresholds drv 40 level (h, st)"
  using assms
  by (simp add: setTouchThreshold_def setReleaseThreshold_def setThresholds_def
      call_setThresholds_def)

text \<open>
  The simulated sensor records the call: \<open>setTouchThreshold 50\<close> reaches it as touch 50 and
  release 20, \<open>setReleaseThreshold 50\<close> as touch 40 and release 50; and after thresholds
  60 and 30 were set, \<open>setTouchThreshold 50\<close> still sends release 20.
\<close>

theorem single_threshold_setters_witness:
  "store0 (sensor helper0) = Some sim0 \<and>
   setTouchThreshold sim_driver 50 (helper0, store0) =
     Some (helper0, store0(1 \<mapsto> sim0\<lparr>sim_calls := [SetThresholds 50 20]\<rparr>)) \<and>
   setReleaseThreshold sim_driver 50 (helper0, store0) =
     Some (helper0, store0(1 \<mapsto> sim0\<lparr>sim_calls := [SetThresholds 40 50]\<rparr>)) \<and>
   setTouchThreshold sim_driver 50
       (helper0, store0(1 \<mapsto> sim0\<lparr>sim_calls := [SetThresholds 60 30]\<rparr>)) =
     Some (helper0,
           store0(1 \<mapsto> sim0\<lparr>sim_calls := [SetThresholds 60 30, SetThresholds 50 20]\<rparr>))"
  using single_threshold_setters [of store0 helper0 sim0 sim_driver 50]
    single_threshold_setters [of "store0(1 \<mapsto> sim0\<lparr>sim_calls := [SetThresholds 60 30]\<rparr>)"
      helper0 "sim0\<lparr>sim_calls := [SetThresholds 60 30]\<rparr>" sim_driver 50]
  by (simp add: store0_def helper0_def sim0_def sim_driver_def sim_setThresholds_def)

text \<open>
  Claim C7. A refresh of the filtered data calls the driver's \<open>filteredData\<close> for the
  channels 0, 1, ..., 11 in this order, and returns; with \<open>vs\<close> the 12 values the driver
  returned, the cache is \<open>vs\<close> afterwards, whatever it held before, and \<open>getFilteredData\<close>
  returns for every channel \<open>c\<close> in 0..11 the value the driver returned for \<open>c\<close>. The
  wrapper's pointer refers to a live driver and the cache has its 12 cells.
\<close>

theorem proximity_refresh:
  assumes "st (sensor h) = Some d"
    and "length (filteredDataCache h) = 12"
    and "filteredData_replies drv [0, 1, 2, 3, 4, 5, 6, 7, 8, 9, 10, 11] d = (vs, d')"
  shows "\<exists>h'. updateFilteredData drv (h, st) = Some (h', st(sensor h \<mapsto> d')) \<and>
           filteredDataCache h' = vs \<and> length vs = 12 \<and>
           (\<forall>c. c \<le> 11 \<longrightarrow> getFilteredData h' c = Some (vs ! unat c))"
proof -
  have r: "filteredData_replies drv channels d = (vs, d')"
    using assms(3) by (simp add: channels_def)
  have "length (fst (filteredData_replies drv channels d)) = length channels"
    by (rule length_filteredData_replies)
  then have "length vs = length channels" by (simp add: r)
  then have len: "length vs = 12" by (simp add: channels_def)
  let ?h = "h\<lparr>filteredDataCache := vs\<rparr>"
  have "updateFilteredData drv (h, st) = Some (?h, st(sensor h \<mapsto> d'))"
    using assms(1,2) updateFilteredData_eq [of st h d drv] by (simp add: r)
  moreover have "getFilteredData ?h c = Some (vs ! unat c)" if "c \<le> 11" for c
    using that len by (simp add: getFilteredData_eq)
  ultimately show ?thesis using len by simp
qed

text \<open>
  On the simulated sensor with the values 10, 20, ..., 120 and a cache that held 1, ...,
  12: the sensor receives the 12 calls in order, the cache holds the 12 values, and
  channel 5 reads 60, the 6th value.
\<close>

theorem proximity_refresh_witness:
  "store0 (sensor (raw0\<lparr>sensor := 1\<rparr>)) = Some sim0 \<and>
   length (filteredDataCache (raw0\<lparr>sensor := 1\<rparr>)) = 12 \<and>
   filteredData_replies sim_driver [0, 1, 2, 3, 4, 5, 6, 7, 8, 9, 10, 11] sim0 =
     ([10, 20, 30, 40, 50, 60, 70, 80, 90, 100, 110, 120],
      sim0\<lparr>sim_calls := map FilteredData channels\<rparr>) \<and>
   (5::u8) \<le> 11 \<and>
   (\<exists>h'. updateFilteredData sim_driver (raw0\<lparr>sensor := 1\<rparr>, store0) =
           Some (h', store0(1 \<mapsto> sim0\<lparr>sim_calls := map FilteredData channels\<rparr>)) \<and>
         filteredDataCache h' = [10, 20, 30, 40, 50, 60, 70, 80, 90, 100, 110, 120] \<and>
         getFilteredData h' 5 = Some 60)"
  using proximity_refresh [of store0 "raw0\<lparr>sensor := 1\<rparr>" sim0 sim_driver
      "[10, 20, 30, 40, 50, 60, 70, 80, 90, 100, 110, 120]"
      "sim0\<lparr>sim_calls := map FilteredData channels\<rparr>"]
  by (fastforce simp: store0_def raw0_def sim0_def sim_driver_def sim_filteredData_def
      arr_read_def channels_def)

text \<open>
  Claim C8. The constructor, run on any storage with the 12 cells of the cache and with
  any pointer, returns an object whose \<open>sensor\<close> is the pointer given, whose two masks
  are 0 and whose 12 cache cells are 0. It makes no call to the driver: the store of the
  drivers is unchanged, for a null pointer too. On the new object \<open>isTouched\<close> and
  \<open>wasTouched\<close> return false and \<open>getFilteredData\<close> returns 0 for every electrode, and
  \<open>getNumTouches\<close> returns 0.
\<close>

theorem construction:
  assumes "length (filteredDataCache raw) = 12"
  shows "\<exists>h. MPR121_Helper_ctor cap (raw, st) = Some (h, st) \<and>
           sensor h = cap \<and> currentTouchData h = 0 \<and> lastTouchData h = 0 \<and>
           filteredDataCache h = replicate 12 0 \<and>
           (\<forall>c. isTouched h c = Some False \<and> wasTouched h c = Some False \<and>
                getFilteredData h c = Some 0) \<and>
           getNumTouches h = Some 0"
proof -
  let ?h = "\<lparr>sensor = cap, currentTouchData = 0, lastTouchData = 0,
             filteredDataCache = replicate 12 0\<rparr>"
  have "MPR121_Helper_ctor cap (raw, st) = Some (?h, st)"
    using assms by (rule MPR121_Helper_ctor_eq)
  moreover have "isTouched ?h c = Some False" "wasTouched ?h c = Some False" for c
    by (simp_all add: isTouched_eq wasTouched_eq)
  moreover have "getFilteredData ?h c = Some 0" for c
    by (simp add: getFilteredData_eq word_le_nat_alt)
  moreover have "getNumTouches ?h = Some 0"
    by (simp add: getNumTouches_def getNumTouches_loop_eq)
  ultimately show ?thesis by simp
qed

text \<open>
  On storage that holds the masks BEEF and DEAD and the cells 1, ..., 12, with the
  simulated sensor at address 1: the store, and with it the sensor's record of calls, is
  as before.
\<close>

theorem construction_witness:
  "length (filteredDataCache raw0) = 12 \<and>
   (\<exists>h. MPR121_Helper_ctor 1 (raw0, store0) = Some (h, store0) \<and>
      sensor h = 1 \<and> currentTouchData h = 0 \<and> lastTouchData h = 0 \<and>
      filteredDataCache h = [0, 0, 0, 0, 0, 0, 0, 0, 0, 0, 0, 0] \<and>
      isTouched h 3 = Some False \<and> wasTouched h 3 = Some False \<and>
      getFilteredData h 3 = Some 0 \<and> getNumTouches h = Some 0)"
  using construction [of raw0 1 store0]
  by (fastforce simp: raw0_def numeral_eq_Suc)

text \<open>
  Claim C9. The two refresh operations are independent: from every state and for every
  driver, the refresh of the filtered data returns and leaves \<open>currentTouchData\<close> and
  \<open>lastTouchData\<close> as they were, and the refresh of the touch data returns and leaves
  the 12 cells of \<open>filteredDataCache\<close> as they were. The wrapper's pointer refers to a
  live driver and the cache has its 12 cells.
\<close>

theorem refreshes_independent:
  assumes "st (sensor h) = Some d"
    and "length (filteredDataCache h) = 12"
  shows "(\<exists>h' st'. updateFilteredData drv (h, st) = Some (h', st') \<and>
            currentTouchData h' = currentTouchData h \<and>
            lastTouchData h' = lastTouchData h) \<and>
         (\<exists>h' st'. updateTouchData drv (h, st) = Some (h', st') \<and>
            filteredDataCache h' = filteredDataCache h)"
proof -
  obtain m d' where "drv_touched drv d = (m, d')" by (cases "drv_touched drv d")
  with assms(1) have "updateTouchData drv (h, st) =
      Some (h\<lparr>lastTouchData := currentTouchData h, currentTouchData := m\<rparr>, st(sensor h \<mapsto> d'))"
    by (rule updateTouchData_eq)
  then show ?thesis
    using assms updateFilteredData_eq [of st h d drv] by simp
qed

text \<open>On the simulated sensor, from masks BEEF and DEAD and the cells 1, ..., 12.\<close>

theorem refreshes_independent_witness:
  "store0 (sensor (raw0\<lparr>sensor := 1\<rparr>)) = Some sim0 \<and>
   length (filteredDataCache (raw0\<lparr>sensor := 1\<rparr>)) = 12 \<and>
   (\<exists>h' st'. updateFilteredData sim_driver (raw0\<lparr>sensor := 1\<rparr>, store0) = Some (h', st') \<and>
      currentTouchData h' = 0xBEEF \<and> lastTouchData h' = 0xDEAD) \<and>
   (\<exists>h' st'. updateTouchData sim_driver (raw0\<lparr>sensor := 1\<rparr>, store0) = Some (h', st') \<and>
      filteredDataCache h' = [1, 2, 3, 4, 5, 6, 7, 8, 9, 10, 11, 12])"
  using refreshes_independent [of store0 "raw0\<lparr>sensor := 1\<rparr>" sim0 sim_driver]
  by (simp add: store0_def raw0_def)

text \<open>
  Claim C10. \<open>getTouchData\<close> and \<open>isTouched\<close> are two names of one query: they return the
  same result for every electrode argument and every state of the wrapper.
\<close>

theorem getTouchData_is_isTouched:
  "getTouchData h electrode = isTouched h electrode"
  by (simp add: getTouchData_def isTouched_def)

end
